theory Spec2Isabelle
  imports Main "HOL-Library.Multiset"
begin

section \<open>Data model of the SimpleNote client\<close>

text \<open>
  The Go structs of the client as records. Field names are the source's; the fields of
  \<open>CommandLineParams\<close> that share a name with a field of \<open>Note\<close> carry the prefix
  \<open>Param\<close>. Go's \<open>int\<close> is the 64-bit signed integer of the amd64 build.
\<close>

record Note =
  Content :: string
  Tags :: "string list"
  SystemTags :: "string list"
  Deleted :: int
  Key :: string
  ShareKey :: string
  PublishKey :: string
  ModifyDate :: string
  CreateDate :: string

record NoteList =
  Count :: int
  Data :: "Note list"
  Mark :: string

record UserConfigFile =
  Email :: string
  Password :: string
  Markdown :: bool
  Editor :: string

record CommandLineParams =
  ParamContent :: string
  ParamTags :: "string list"
  Action :: string
  ParamKey :: string
  Flags :: "string \<rightharpoonup> string"
  Piped :: bool

text \<open>
  \<open>simpleNoteClient\<close> without its \<open>Client\<close> field: the HTTP client is the transport
  that the request functions below take as a parameter.
\<close>

record simpleNoteClient =
  Token :: string
  Cfg :: UserConfigFile
  Params :: CommandLineParams

text \<open>Reading a Go map of strings: a missing key yields the empty string.\<close>

definition lookup :: "(string \<rightharpoonup> string) \<Rightarrow> string \<Rightarrow> string" where
  "lookup m k = (case m k of None \<Rightarrow> [] | Some v \<Rightarrow> v)"

definition flag :: "simpleNoteClient \<Rightarrow> string \<Rightarrow> string" where
  "flag s k = lookup (Flags (Params s)) k"

section \<open>The index filter of getAllNotes\<close>

fun CheckIn :: "string \<Rightarrow> string list \<Rightarrow> bool" where
  "CheckIn needle [] = False"
| "CheckIn needle (v # haystack) = (if v = needle then True else CheckIn needle haystack)"

text \<open>
  The inner loop over \<open>s.Params.Tags\<close>: the first filter tag found among the note's tags
  appends the note and breaks.
\<close>

fun tagLoop :: "string list \<Rightarrow> Note \<Rightarrow> Note list \<Rightarrow> Note list" where
  "tagLoop [] n notes = notes"
| "tagLoop (t # ts) n notes =
     (if CheckIn t (Tags n) then notes @ [n] else tagLoop ts n notes)"

text \<open>The loop over \<open>l.Data\<close>, appending to the accumulated \<open>notes\<close>.\<close>

fun pageLoop :: "simpleNoteClient \<Rightarrow> Note list \<Rightarrow> Note list \<Rightarrow> Note list" where
  "pageLoop s [] notes = notes"
| "pageLoop s (n # ns) notes =
     (if flag s ''deleted'' \<noteq> ''true'' \<and> Deleted n = 1 then pageLoop s ns notes
      else if length (ParamTags (Params s)) > 0
        then pageLoop s ns (tagLoop (ParamTags (Params s)) n notes)
        else pageLoop s ns (notes @ [n]))"

text \<open>The condition of claim C5, in the spec's words.\<close>

definition keeps :: "simpleNoteClient \<Rightarrow> Note \<Rightarrow> bool" where
  "keeps s n \<longleftrightarrow>
     (Deleted n \<noteq> 1 \<or> flag s ''deleted'' = ''true'') \<and>
     (ParamTags (Params s) = [] \<or> (\<exists>t \<in> set (Tags n). t \<in> set (ParamTags (Params s))))"

section \<open>Requests, responses and the library the client calls\<close>

text \<open>
  The error values of the client, one constructor for each \<open>errors.New\<close> of the source
  (with the status code its message carries), and \<open>ErrLib\<close> for an error value handed
  back by a library call (net/http, io, encoding/json); \<open>ErrSyntax\<close> and \<open>ErrRange\<close>
  are the two errors of \<open>strconv.Atoi\<close>.
\<close>

datatype error =
    ErrMissingKey
  | ErrUpdate int
  | ErrRequest int
  | ErrTimeout
  | ErrAuthorize int
  | ErrSyntax
  | ErrRange
  | ErrLib string

text \<open>
  How a call ends: it returns, it panics (a nil dereference or a slice bound out of
  range), or \<open>log.Fatal\<close> ends the process.
\<close>

datatype 'a outcome = Return 'a | Panic | Fatal error

text \<open>
  An \<open>http.Request\<close>: \<open>Body\<close> is the \<open>io.Reader\<close> argument given to
  \<open>http.NewRequest\<close> (\<open>None\<close> for \<open>nil\<close>), \<open>Query\<close> the \<open>url.Values\<close> that
  \<open>RawQuery\<close> encodes. An \<open>http.Response\<close>: the status code and what
  \<open>ioutil.ReadAll\<close> yields on its body, the bytes and an error or \<open>nil\<close>.
\<close>

record request =
  Method :: string
  Addr :: string
  Query :: "string \<rightharpoonup> string list"
  Header :: "string \<rightharpoonup> string"
  Body :: "string option"

record response =
  StatusCode :: int
  RespBody :: string
  ReadErr :: "error option"

text \<open>
  The library functions the client calls, as parameters. \<open>Do\<close> is \<open>s.Client.Do\<close> on a
  world \<open>'w\<close> (the network and the server behind it): it hands back Go's pair of a
  response or \<open>nil\<close> and an error or \<open>nil\<close>, and the next world. \<open>urlQuery\<close> is the
  URL parse of \<open>http.NewRequest\<close> followed by \<open>req.URL.Query()\<close>; \<open>sortSort\<close> is
  \<open>sort.Sort\<close> on \<open>Notes\<close>; \<open>timeFormat\<close> is \<open>time.Unix(t, 0).Format\<close> with the
  layout of \<open>HumanDate\<close>; the three \<open>Colored\<close> functions are those of the color package.
\<close>

record 'w lib =
  Do :: "'w \<Rightarrow> request \<Rightarrow> (response option \<times> error option) \<times> 'w"
  urlQuery :: "string \<Rightarrow> error + (string \<rightharpoonup> string list)"
  base64 :: "string \<Rightarrow> string"
  jsonMarshal :: "Note \<Rightarrow> error + string"
  jsonNote :: "string \<Rightarrow> error + Note"
  jsonNoteList :: "string \<Rightarrow> error + NoteList"
  sortSort :: "Note list \<Rightarrow> Note list"
  timeFormat :: "int \<Rightarrow> string"
  redColored :: "string \<Rightarrow> string"
  cyanColored :: "string \<Rightarrow> string"
  blueColored :: "string \<Rightarrow> string"

definition baseUrl :: string where
  "baseUrl = ''https://simple-note.appspot.com/api2/''"

definition authorizeUrl :: string where
  "authorizeUrl = ''https://simple-note.appspot.com/api/login''"


definition indexEndpoint :: string where
  "indexEndpoint = ''index''"

definition defaultNoteAmount :: int where
  "defaultNoteAmount = 100"

definition noteHeaderLength :: nat where
  "noteHeaderLength = 80"

definition MethodGet :: string where
  "MethodGet = ''GET''"

definition MethodPost :: string where
  "MethodPost = ''POST''"

definition MethodDelete :: string where
  "MethodDelete = ''DELETE''"

definition StatusOK :: int where
  "StatusOK = 200"

definition simpleNoteHeaders :: "string \<rightharpoonup> string" where
  "simpleNoteHeaders =
     [''User-Agent'' \<mapsto> ''GoNote/0.1.0'', ''Accept'' \<mapsto> ''application/json'',
      ''Content-Type'' \<mapsto> ''application/json'']"

definition NewRequest :: "'w lib \<Rightarrow> string \<Rightarrow> string \<Rightarrow> string option \<Rightarrow> error + request" where
  "NewRequest l method addr body =
     (case urlQuery l addr of
        Inl e \<Rightarrow> Inl e
      | Inr q \<Rightarrow> Inr \<lparr>Method = method, Addr = addr, Query = q, Header = Map.empty, Body = body\<rparr>)"

section \<open>parseAddr\<close>

text \<open>\<open>url.Values.Add\<close>: the value is appended to those the key already has.\<close>

definition valuesOf :: "(string \<rightharpoonup> string list) \<Rightarrow> string \<Rightarrow> string list" where
  "valuesOf vals k = (case vals k of None \<Rightarrow> [] | Some vs \<Rightarrow> vs)"

definition valuesAdd :: "(string \<rightharpoonup> string list) \<Rightarrow> string \<Rightarrow> string \<Rightarrow> (string \<rightharpoonup> string list)" where
  "valuesAdd vals k v = vals(k \<mapsto> valuesOf vals k @ [v])"

text \<open>
  \<open>p\<close> starts as the two authentication parameters; the loop over \<open>params\<close> then
  assigns \<open>p[k] = v\<close> for each of the caller's entries, which is the map override
  \<open>p ++ ps\<close>. The loop over \<open>p\<close> adds each entry of \<open>p\<close> to \<open>vals\<close>; the keys of a map
  are distinct, so whatever order the loop takes, \<open>vals\<close> ends with one more value at
  each key of \<open>p\<close> and is unchanged elsewhere.
\<close>

definition parseAddr :: "simpleNoteClient \<Rightarrow> request \<Rightarrow> (string \<rightharpoonup> string) option \<Rightarrow> request" where
  "parseAddr s req params =
     (let vals = Query req;
          p = [''auth'' \<mapsto> Token s, ''email'' \<mapsto> Email (Cfg s)];
          p = (case params of None \<Rightarrow> p | Some ps \<Rightarrow> p ++ ps);
          vals = (\<lambda>k. case p k of None \<Rightarrow> vals k | Some v \<Rightarrow> valuesAdd vals k v k)
      in req\<lparr>Query := vals\<rparr>)"

section \<open>Authorize and makeRequest\<close>

text \<open>
  Authorize posts the encoded credentials to the login address and stores the body of a
  200 response as the token. It returns an error or \<open>nil\<close>.
\<close>

definition Authorize :: "'w lib \<Rightarrow> simpleNoteClient \<Rightarrow> 'w \<Rightarrow> error option outcome \<times> simpleNoteClient \<times> 'w" where
  "Authorize l s w =
     (let body = ''email='' @ Email (Cfg s) @ ''&password='' @ Password (Cfg s);
          encodedBody = base64 l body
      in case NewRequest l MethodPost authorizeUrl (Some encodedBody) of
           Inl e \<Rightarrow> (Return (Some e), s, w)
         | Inr req \<Rightarrow>
             (case Do l w req of
                ((_, Some e), w') \<Rightarrow> (Return (Some e), s, w')
              | ((None, None), w') \<Rightarrow> (Panic, s, w')
              | ((Some resp, None), w') \<Rightarrow>
                  if StatusCode resp \<noteq> StatusOK
                  then (Return (Some (ErrAuthorize (StatusCode resp))), s, w')
                  else (case ReadErr resp of
                          Some e \<Rightarrow> (Return (Some e), s, w')
                        | None \<Rightarrow> (Return None, s\<lparr>Token := RespBody resp\<rparr>, w'))))"

definition setHeaders :: "request \<Rightarrow> request" where
  "setHeaders req = req\<lparr>Header := Header req ++ simpleNoteHeaders\<rparr>"

text \<open>
  makeRequest calls itself after a 401 or 403 followed by a successful Authorize, and
  after a 500 or 412, with no bound. The first argument bounds the depth of these calls:
  \<open>None\<close> says that the bound was reached. The result is Go's triple of the response
  bytes, an error or \<open>nil\<close>, and the status code. \<open>defer resp.Body.Close()\<close> stands
  before the check of \<open>err\<close>, so a \<open>nil\<close> response is dereferenced there.
\<close>

fun makeRequest :: "nat \<Rightarrow> 'w lib \<Rightarrow> string \<Rightarrow> string \<Rightarrow> string option \<Rightarrow> (string \<rightharpoonup> string) option \<Rightarrow>
    simpleNoteClient \<Rightarrow> 'w \<Rightarrow> ((string \<times> error option \<times> int) outcome \<times> simpleNoteClient \<times> 'w) option" where
  "makeRequest 0 l addr method body additionalParams s w = None"
| "makeRequest (Suc fuel) l addr method body additionalParams s w =
     (case NewRequest l method addr body of
        Inl e \<Rightarrow> Some (Return ([], Some e, 0), s, w)
      | Inr req \<Rightarrow>
          (case Do l w (setHeaders (parseAddr s req additionalParams)) of
             ((None, _), w') \<Rightarrow> Some (Panic, s, w')
           | ((Some resp, Some e), w') \<Rightarrow> Some (Return ([], Some e, 0), s, w')
           | ((Some resp, None), w') \<Rightarrow>
               if StatusCode resp = 403 \<or> StatusCode resp = 401 then
                 (case Authorize l s w' of
                    (Return (Some e), s', w'') \<Rightarrow> Some (Return ([], Some e, 0), s', w'')
                  | (Return None, s', w'') \<Rightarrow> makeRequest fuel l addr method body additionalParams s' w''
                  | (Panic, s', w'') \<Rightarrow> Some (Panic, s', w'')
                  | (Fatal e, s', w'') \<Rightarrow> Some (Fatal e, s', w''))
               else if StatusCode resp = 500 \<or> StatusCode resp = 412 then
                 makeRequest fuel l addr method body additionalParams s w'
               else Some (Return (RespBody resp, ReadErr resp, StatusCode resp), s, w')))"

section \<open>Integers as text\<close>

text \<open>
  \<open>strconv.Itoa\<close> and \<open>strconv.Atoi\<close> for the 64-bit \<open>int\<close>, after the documentation of
  package strconv: Atoi reads an optional sign and decimal digits; on a syntax error it
  returns 0 and the error, on a value out of range the nearest bound and the error.
\<close>

definition digitChar :: "nat \<Rightarrow> char" where
  "digitChar d = ''0123456789'' ! d"

fun natDigits :: "nat \<Rightarrow> string" where
  "natDigits n = (if n < 10 then [digitChar n] else natDigits (n div 10) @ [digitChar (n mod 10)])"

declare natDigits.simps [simp del]

definition Itoa :: "int \<Rightarrow> string" where
  "Itoa i = (if i < 0 then CHR ''-'' # natDigits (nat (- i)) else natDigits (nat i))"

definition isDigit :: "char \<Rightarrow> bool" where
  "isDigit c \<longleftrightarrow> 48 \<le> (of_char c :: nat) \<and> (of_char c :: nat) \<le> 57"

definition digitVal :: "char \<Rightarrow> nat" where
  "digitVal c = of_char c - 48"

fun digitsVal :: "nat \<Rightarrow> string \<Rightarrow> nat" where
  "digitsVal acc [] = acc"
| "digitsVal acc (c # cs) = digitsVal (10 * acc + digitVal c) cs"

definition Atoi :: "string \<Rightarrow> int \<times> error option" where
  "Atoi str =
     (let neg = (case str of [] \<Rightarrow> False | c # _ \<Rightarrow> c = CHR ''-'');
          ds = (case str of [] \<Rightarrow> [] | c # cs \<Rightarrow> if c = CHR ''-'' \<or> c = CHR ''+'' then cs else str)
      in if ds = [] \<or> \<not> list_all isDigit ds then (0, Some ErrSyntax)
         else let v = int (digitsVal 0 ds)
              in if neg then (if v > 2 ^ 63 then (- (2 ^ 63), Some ErrRange) else (- v, None))
                 else (if v > 2 ^ 63 - 1 then (2 ^ 63 - 1, Some ErrRange) else (v, None)))"

text \<open>The value a 64-bit \<open>int\<close> holds after an operation whose exact result is \<open>x\<close>.\<close>

definition int64 :: "int \<Rightarrow> int" where
  "int64 x = (x + 2 ^ 63) mod 2 ^ 64 - 2 ^ 63"

section \<open>getAllNotes\<close>

text \<open>
  getAllNotes calls itself while the page has a mark, with no bound; the first argument
  bounds the depth, and \<open>None\<close> says that the bound was reached. The recursive call
  passes the parameter \<open>mark\<close>, and its result \<open>newNotes\<close> is appended to \<open>notes\<close>, as
  in the source. The result is Go's pair of the notes and an error or \<open>nil\<close>.
\<close>

fun getAllNotes :: "nat \<Rightarrow> 'w lib \<Rightarrow> Note list \<Rightarrow> string \<Rightarrow> simpleNoteClient \<Rightarrow> 'w \<Rightarrow>
    ((Note list \<times> error option) outcome \<times> simpleNoteClient \<times> 'w) option" where
  "getAllNotes 0 l notes mark s w = None"
| "getAllNotes (Suc fuel) l notes mark s w =
     (let qparams = [''length'' \<mapsto> Itoa defaultNoteAmount];
          qparams = (if mark \<noteq> [] then qparams(''mark'' \<mapsto> mark) else qparams)
      in case makeRequest (Suc fuel) l (baseUrl @ indexEndpoint) MethodGet None (Some qparams) s w of
           None \<Rightarrow> None
         | Some (Panic, s', w') \<Rightarrow> Some (Panic, s', w')
         | Some (Fatal e, s', w') \<Rightarrow> Some (Fatal e, s', w')
         | Some (Return (resp, Some e, code), s', w') \<Rightarrow> Some (Return ([], Some e), s', w')
         | Some (Return (resp, None, code), s', w') \<Rightarrow>
             if code \<noteq> StatusOK then Some (Return ([], Some (ErrRequest code)), s', w')
             else (case jsonNoteList l resp of
                     Inl e \<Rightarrow> Some (Return ([], Some e), s', w')
                   | Inr lst \<Rightarrow>
                       (let notes = pageLoop s' (Data lst) notes
                        in if Mark lst \<noteq> [] then
                             (case getAllNotes fuel l notes mark s' w' of
                                None \<Rightarrow> None
                              | Some (Panic, s'', w'') \<Rightarrow> Some (Panic, s'', w'')
                              | Some (Fatal e, s'', w'') \<Rightarrow> Some (Fatal e, s'', w'')
                              | Some (Return (newNotes, Some e), s'', w'') \<Rightarrow>
                                  Some (Return ([], Some e), s'', w'')
                              | Some (Return (newNotes, None), s'', w'') \<Rightarrow>
                                  Some (Return (notes @ newNotes, None), s'', w''))
                           else Some (Return (notes, None), s', w'))))"

section \<open>fetchNote, updateNote and deleteNote\<close>






section \<open>Observing the requests sent\<close>


text \<open>A request of Authorize, and a request of a call of makeRequest.\<close>

definition isLogin :: "request \<Rightarrow> bool" where
  "isLogin req \<longleftrightarrow> Method req = MethodPost \<and> Addr req = authorizeUrl"



section \<open>The collection loop of listNotes\<close>

text \<open>
  What the \<open>select\<close> of listNotes can take, one event for each turn of the loop: a note
  received on \<open>noteCh\<close>, the timeout, or the end of the process by the \<open>log.Fatal\<close> of a
  fetch. The loop is run on the sequence of events in the order the runtime delivers
  them; \<open>wanted\<close> is \<open>len(notes)\<close>, which is positive when the loop is entered. The
  result \<open>Inr fullNotes\<close> is the list handed to showNotes, \<open>Inl\<close> the error returned;
  \<open>None\<close> says that the events ended with the loop still waiting.
\<close>

datatype event = Retrieved Note | TimeoutFired | FetchFatal error

fun collectLoop :: "nat \<Rightarrow> Note list \<Rightarrow> event list \<Rightarrow> (error + Note list) outcome option" where
  "collectLoop wanted fullNotes [] = None"
| "collectLoop wanted fullNotes (Retrieved n # events) =
     (let fullNotes = fullNotes @ [n]
      in if length fullNotes = wanted then Some (Return (Inr fullNotes))
         else collectLoop wanted fullNotes events)"
| "collectLoop wanted fullNotes (TimeoutFired # events) = Some (Return (Inl ErrTimeout))"
| "collectLoop wanted fullNotes (FetchFatal e # events) = Some (Fatal e)"

section \<open>Helpers of the presenter\<close>

text \<open>\<open>strings.Split(d, ".")[0]\<close> is the text before the first dot.\<close>

definition GetSimpleNoteTimestamp :: "string \<Rightarrow> int" where
  "GetSimpleNoteTimestamp d = fst (Atoi (takeWhile (\<lambda>c. c \<noteq> CHR ''.'') d))"

definition Less :: "Note \<Rightarrow> Note \<Rightarrow> bool" where
  "Less a b \<longleftrightarrow> GetSimpleNoteTimestamp (ModifyDate a) < GetSimpleNoteTimestamp (ModifyDate b)"

definition HumanDate :: "'w lib \<Rightarrow> string \<Rightarrow> string" where
  "HumanDate l d = timeFormat l (GetSimpleNoteTimestamp d)"

fun Join :: "string list \<Rightarrow> string \<Rightarrow> string" where
  "Join [] sep = []"
| "Join [x] sep = x"
| "Join (x # y # xs) sep = x @ sep @ Join (y # xs) sep"

definition tagPrefix :: string where
  "tagPrefix = ''@''"

definition ParseTags :: "string list \<Rightarrow> string" where
  "ParseTags tags = Join (map (\<lambda>t. tagPrefix @ t) tags) '', ''"

text \<open>\<open>strings.Split(content, "\n")\<close>: the lines between the newline bytes.\<close>

fun SplitLines :: "string \<Rightarrow> string list" where
  "SplitLines [] = [[]]"
| "SplitLines (c # cs) =
     (if c = CHR 0x0A then [] # SplitLines cs
      else (case SplitLines cs of [] \<Rightarrow> [[c]] | line # rest \<Rightarrow> (c # line) # rest))"

text \<open>
  parseNote: the lines from the first non-empty one on (all of them when every line is
  empty), then the first of these cut to 80 bytes, or all of them joined.
\<close>

definition parseNote :: "'w lib \<Rightarrow> simpleNoteClient \<Rightarrow> Note \<Rightarrow> bool \<Rightarrow> string" where
  "parseNote l s note shorten =
     (let lines = SplitLines (Content note);
          lines = (if list_ex (\<lambda>line. line \<noteq> []) lines
                   then dropWhile (\<lambda>line. line = []) lines else lines);
          content = (case lines of
                       [] \<Rightarrow> []
                     | first # _ \<Rightarrow>
                         if shorten
                         then (if noteHeaderLength < length first
                               then take noteHeaderLength first @ ''...'' else first)
                         else Join lines [CHR 0x0A])
      in redColored l (Key note) @ [CHR 0x0A] @
         cyanColored l (HumanDate l (ModifyDate note)) @ '' '' @
         blueColored l (ParseTags (Tags note)) @ [CHR 0x0A] @
         content @ [CHR 0x0A] @ ''----------------------------------'')"

section \<open>showNotes\<close>

text \<open>
  What showNotes prints: the "No Notes" body, or the body with the records kept; both
  carry the email of the configuration.
\<close>

datatype printed = NoNotes string | Listing "string list" string

text \<open>The loop over the sorted notes, appending the record of each note with content.\<close>

fun showLoop :: "'w lib \<Rightarrow> simpleNoteClient \<Rightarrow> Note list \<Rightarrow> string list \<Rightarrow> string list" where
  "showLoop l s [] parsed = parsed"
| "showLoop l s (n # ns) parsed =
     (if Content n \<noteq> [] then showLoop l s ns (parsed @ [parseNote l s n True])
      else showLoop l s ns parsed)"

text \<open>
  \<open>parsed[cut:]\<close> panics unless \<open>0 \<le> cut \<le> len(parsed)\<close>.
\<close>

definition showNotes :: "'w lib \<Rightarrow> simpleNoteClient \<Rightarrow> Note list \<Rightarrow> printed outcome" where
  "showNotes l s notes =
     (let sorted = sortSort l notes;
          parsed = showLoop l s sorted []
      in if length parsed = 0 then Return (NoNotes (Email (Cfg s)))
         else if flag s ''n'' \<noteq> ''-1'' then
           (let (n, err) = Atoi (flag s ''n'');
                n = (if err \<noteq> None then int (length parsed) else n);
                n = (if n > int (length parsed) then int (length parsed) else n);
                cut = int64 (int (length parsed) - n)
            in if cut < 0 \<or> cut > int (length parsed) then Panic
               else Return (Listing (drop (nat cut) parsed) (Email (Cfg s))))
         else Return (Listing parsed (Email (Cfg s))))"

text \<open>
  What package sort documents of \<open>sort.Sort\<close>: the result is a rearrangement of the
  input in ascending order as determined by \<open>Less\<close>; the sort is not guaranteed to be
  stable.
\<close>

definition sortContract :: "(Note list \<Rightarrow> Note list) \<Rightarrow> bool" where
  "sortContract srt \<longleftrightarrow>
     (\<forall>xs. mset (srt xs) = mset xs \<and> sorted_wrt (\<lambda>a b. \<not> Less b a) (srt xs))"

section \<open>Concrete notes and clients\<close>

text \<open>
  A note with the given key, content, tags, deleted flag and modification date, and a
  client for the \<open>list\<close> action with the given filter tags and flags.
\<close>

definition exNote :: "string \<Rightarrow> string \<Rightarrow> string list \<Rightarrow> int \<Rightarrow> string \<Rightarrow> Note" where
  "exNote k c ts d m =
     \<lparr>Content = c, Tags = ts, SystemTags = [], Deleted = d, Key = k, ShareKey = [],
      PublishKey = [], ModifyDate = m, CreateDate = m\<rparr>"

definition exClient :: "string list \<Rightarrow> (string \<times> string) list \<Rightarrow> simpleNoteClient" where
  "exClient ts fl =
     \<lparr>Token = ''tok0'',
      Cfg = \<lparr>Email = ''me@example.org'', Password = ''pw'', Markdown = True, Editor = ''vim''\<rparr>,
      Params = \<lparr>ParamContent = [], ParamTags = ts, Action = ''list'',
                ParamKey = ''a'', Flags = map_of fl, Piped = False\<rparr>\<rparr>"

text \<open>The request that \<open>http.NewRequest\<close> builds for an address without a query.\<close>

definition exRequest :: "string \<Rightarrow> string \<Rightarrow> request" where
  "exRequest method addr =
     \<lparr>Method = method, Addr = addr, Query = Map.empty, Header = Map.empty, Body = None\<rparr>"

text \<open>The timestamp that \<open>Less\<close> compares.\<close>

definition timestamp :: "Note \<Rightarrow> int" where
  "timestamp n = GetSimpleNoteTimestamp (ModifyDate n)"

text \<open>
  Two sorting functions that meet the contract of \<open>sort.Sort\<close>: an insertion sort that
  keeps notes of equal timestamp in their input order, and one that reverses them.
\<close>

definition stableSort :: "Note list \<Rightarrow> Note list" where
  "stableSort xs = sort_key timestamp xs"


definition exA :: Note where
  "exA = exNote ''a'' ''first'' [] 0 ''100''"

definition exB :: Note where
  "exB = exNote ''b'' ''second'' [] 0 ''200''"

text \<open>
  A library for the examples: the transport and the sort are given; addresses carry no
  query; the JSON codec knows two index pages and one note.
\<close>

definition exLib :: "('w \<Rightarrow> request \<Rightarrow> (response option \<times> error option) \<times> 'w) \<Rightarrow>
    (Note list \<Rightarrow> Note list) \<Rightarrow> 'w lib" where
  "exLib transport srt =
     \<lparr>Do = transport,
      urlQuery = (\<lambda>addr. Inr Map.empty),
      base64 = (\<lambda>b. b),
      jsonMarshal = (\<lambda>n. Inr (''note:'' @ Key n @ '':'' @ Itoa (Deleted n))),
      jsonNote = (\<lambda>b. if b = ''note-a'' then Inr exA else Inl (ErrLib ''json'')),
      jsonNoteList = (\<lambda>b.
        if b = ''page1'' then Inr \<lparr>Count = 1, Data = [exA], Mark = ''m1''\<rparr>
        else if b = ''page2'' then Inr \<lparr>Count = 1, Data = [exB], Mark = []\<rparr>
        else Inl (ErrLib ''json'')),
      sortSort = srt,
      timeFormat = Itoa,
      redColored = (\<lambda>x. x),
      cyanColored = (\<lambda>x. x),
      blueColored = (\<lambda>x. x)\<rparr>"

text \<open>A transport without a network: every request fails.\<close>

definition offline :: "unit \<Rightarrow> request \<Rightarrow> (response option \<times> error option) \<times> unit" where
  "offline w req = ((None, Some (ErrLib ''offline'')), w)"

text \<open>
  Two index servers over a world that records the requests sent. Both answer 200. The
  first serves by mark: the second page for \<open>mark=m1\<close>, the first page otherwise. The
  second serves by turn, whatever the request says: the first page to the first
  request, the second page to every later one. The codec of \<open>exLib\<close> reads \<open>page1\<close>
  as the note \<open>exA\<close> with mark \<open>m1\<close> and \<open>page2\<close> as the note \<open>exB\<close> with no mark.
\<close>

definition byMark :: "request list \<Rightarrow> request \<Rightarrow> (response option \<times> error option) \<times> request list" where
  "byMark w req =
     ((Some \<lparr>StatusCode = 200,
              RespBody = (if Query req ''mark'' = Some [''m1''] then ''page2'' else ''page1''),
              ReadErr = None\<rparr>, None), w @ [req])"

definition byTurn :: "request list \<Rightarrow> request \<Rightarrow> (response option \<times> error option) \<times> request list" where
  "byTurn w req =
     ((Some \<lparr>StatusCode = 200,
              RespBody = (if w = [] then ''page1'' else ''page2''),
              ReadErr = None\<rparr>, None), w @ [req])"



section \<open>Properties of the index filter\<close>

lemma CheckIn_iff: "CheckIn needle haystack \<longleftrightarrow> needle \<in> set haystack"
  by (induction haystack) auto

lemma tagLoop_eq:
  "tagLoop ts n notes = (if \<exists>t \<in> set ts. t \<in> set (Tags n) then notes @ [n] else notes)"
  by (induction ts) (auto simp: CheckIn_iff)

lemma pageLoop_filter: "pageLoop s ns acc = acc @ filter (keeps s) ns"
proof (induction ns arbitrary: acc)
  case Nil
  show ?case by simp
next
  case (Cons n ns)
  show ?case
    by (simp add: Cons.IH tagLoop_eq keeps_def) blast
qed

text \<open>
  C5. The page loop of getAllNotes appends to the accumulated notes exactly the entries
  of the page, in the page's order, for which (the deleted flag is not 1, or the
  \<open>deleted\<close> flag of the command line is \<open>true\<close>) and (the tag filter is empty, or one
  of the entry's tags is a filter tag); an entry matching several filter tags is kept
  once.
\<close>

theorem C5_index_filter:
  "pageLoop s page acc = acc @ filter (\<lambda>n.
      (Deleted n \<noteq> 1 \<or> flag s ''deleted'' = ''true'') \<and>
      (ParamTags (Params s) = [] \<or> (\<exists>t \<in> set (Tags n). t \<in> set (ParamTags (Params s))))) page"
  using pageLoop_filter [of s page acc] by (simp add: keeps_def [abs_def])

theorem C5_index_filter_witness:
  "pageLoop (exClient [''work''] [(''deleted'', ''false'')])
     [exNote ''a'' [] [''work'', ''x''] 0 ''1'', exNote ''b'' [] [''home''] 0 ''2'',
      exNote ''c'' [] [''work''] 1 ''3'', exNote ''d'' [] [''x'', ''work'', ''work''] 0 ''4''] []
   = [exNote ''a'' [] [''work'', ''x''] 0 ''1'', exNote ''d'' [] [''x'', ''work'', ''work''] 0 ''4''] \<and>
   pageLoop (exClient [] [(''deleted'', ''true'')])
     [exNote ''b'' [] [''home''] 0 ''2'', exNote ''c'' [] [''work''] 1 ''3''] []
   = [exNote ''b'' [] [''home''] 0 ''2'', exNote ''c'' [] [''work''] 1 ''3'']"
  using C5_index_filter [of "exClient [''work''] [(''deleted'', ''false'')]"
      "[exNote ''a'' [] [''work'', ''x''] 0 ''1'', exNote ''b'' [] [''home''] 0 ''2'',
        exNote ''c'' [] [''work''] 1 ''3'', exNote ''d'' [] [''x'', ''work'', ''work''] 0 ''4'']" "[]"]
    C5_index_filter [of "exClient [] [(''deleted'', ''true'')]"
      "[exNote ''b'' [] [''home''] 0 ''2'', exNote ''c'' [] [''work''] 1 ''3'']" "[]"]
  by (simp add: exClient_def exNote_def flag_def lookup_def)

section \<open>Properties of parseAddr\<close>

lemma parseAddr_Query:
  "Query (parseAddr s req (Some ps)) k =
     (case ([''auth'' \<mapsto> Token s, ''email'' \<mapsto> Email (Cfg s)] ++ ps) k of
        None \<Rightarrow> Query req k
      | Some v \<Rightarrow> Some (valuesOf (Query req) k @ [v]))"
  by (auto simp: parseAddr_def valuesAdd_def Let_def map_add_def split: option.splits)

lemma parseAddr_Query_nil:
  "Query (parseAddr s req None) k =
     (case [''auth'' \<mapsto> Token s, ''email'' \<mapsto> Email (Cfg s)] k of
        None \<Rightarrow> Query req k
      | Some v \<Rightarrow> Some (valuesOf (Query req) k @ [v]))"
  by (auto simp: parseAddr_def valuesAdd_def Let_def split: option.splits)

text \<open>
  C3, as the spec states it, fails: with the token \<open>tok0\<close> and the caller's parameters
  \<open>auth = other\<close>, the query sent has \<open>auth = other\<close>, not the token.
\<close>

theorem C3_auth_wins_counterexample:
  "Query (parseAddr (exClient [] []) (exRequest MethodGet (baseUrl @ indexEndpoint))
            (Some [''auth'' \<mapsto> ''other''])) ''auth'' = Some [''other''] \<and>
   Query (parseAddr (exClient [] []) (exRequest MethodGet (baseUrl @ indexEndpoint))
            (Some [''auth'' \<mapsto> ''other''])) ''auth'' \<noteq> Some [Token (exClient [] [])]"
  by (simp add: parseAddr_Query valuesOf_def exRequest_def exClient_def)

text \<open>
  C3, amended. The caller's parameters are applied after the authentication parameters
  and win: at every key the caller supplies, \<open>auth\<close> and \<open>email\<close> included, the
  value added to the query is the caller's; the token and the email are added under
  \<open>auth\<close> and \<open>email\<close> only when the caller supplies no value for that key.
\<close>

theorem C3_caller_params_win:
  "(ps k = Some v \<longrightarrow>
      Query (parseAddr s req (Some ps)) k = Some (valuesOf (Query req) k @ [v])) \<and>
   (ps ''auth'' = None \<longrightarrow>
      Query (parseAddr s req (Some ps)) ''auth'' = Some (valuesOf (Query req) ''auth'' @ [Token s])) \<and>
   (ps ''email'' = None \<longrightarrow>
      Query (parseAddr s req (Some ps)) ''email'' = Some (valuesOf (Query req) ''email'' @ [Email (Cfg s)])) \<and>
   Query (parseAddr s req None) ''auth'' = Some (valuesOf (Query req) ''auth'' @ [Token s]) \<and>
   Query (parseAddr s req None) ''email'' = Some (valuesOf (Query req) ''email'' @ [Email (Cfg s)])"
  by (simp add: parseAddr_Query parseAddr_Query_nil map_add_def)

theorem C3_caller_params_win_witness:
  "Query (parseAddr (exClient [] []) (exRequest MethodGet (baseUrl @ indexEndpoint))
            (Some [''length'' \<mapsto> ''100'', ''email'' \<mapsto> ''you@example.org''])) ''email''
     = Some [''you@example.org''] \<and>
   Query (parseAddr (exClient [] []) (exRequest MethodGet (baseUrl @ indexEndpoint))
            (Some [''length'' \<mapsto> ''100'', ''email'' \<mapsto> ''you@example.org''])) ''auth''
     = Some [''tok0'']"
  using C3_caller_params_win [of "[''length'' \<mapsto> ''100'', ''email'' \<mapsto> ''you@example.org'']"
      "''email''" "''you@example.org''" "exClient [] []"
      "exRequest MethodGet (baseUrl @ indexEndpoint)"]
  by (simp add: valuesOf_def exRequest_def exClient_def)

section \<open>Properties of the integer conversions\<close>

lemma digit_ok: "d < 10 \<Longrightarrow> digitVal (digitChar d) = d \<and> isDigit (digitChar d) \<and> digitChar d \<noteq> CHR ''-'' \<and> digitChar d \<noteq> CHR ''+''"
proof -
  assume "d < 10"
  then have "d \<in> {0,1,2,3,4,5,6,7,8,9}" by auto
  then show ?thesis by (auto simp: digitChar_def digitVal_def isDigit_def)
qed
lemma digitsVal_snoc: "digitsVal acc (xs @ [c]) = 10 * digitsVal acc xs + digitVal c"
  by (induction xs arbitrary: acc) auto
lemma natDigits_ne: "natDigits n \<noteq> []"
  by (subst natDigits.simps) simp
lemma natDigits_all: "list_all isDigit (natDigits n)"
proof (induction n rule: natDigits.induct)
  case (1 n)
  show ?case
  proof (cases "n < 10")
    case True
    then show ?thesis by (subst natDigits.simps) (simp add: digit_ok)
  next
    case False
    then have "list_all isDigit (natDigits (n div 10))" using 1 by simp
    moreover have "isDigit (digitChar (n mod 10))" by (simp add: digit_ok)
    ultimately show ?thesis using False by (subst natDigits.simps) simp
  qed
qed
lemma natDigits_val: "digitsVal 0 (natDigits n) = n"
proof (induction n rule: natDigits.induct)
  case (1 n)
  show ?case
  proof (cases "n < 10")
    case True
    then show ?thesis by (subst natDigits.simps) (simp add: digit_ok)
  next
    case False
    then have "digitsVal 0 (natDigits (n div 10)) = n div 10" using 1 by simp
    moreover have "digitVal (digitChar (n mod 10)) = n mod 10" by (simp add: digit_ok)
    ultimately show ?thesis using False by (subst natDigits.simps) (simp add: digitsVal_snoc)
  qed
qed


lemma isDigit_not_sign: "isDigit c \<Longrightarrow> c \<noteq> CHR ''-'' \<and> c \<noteq> CHR ''+''"
  by (auto simp: isDigit_def)

lemma Atoi_digits:
  assumes "ds \<noteq> []" and "list_all isDigit ds"
  shows "Atoi ds = (if int (digitsVal 0 ds) > 2 ^ 63 - 1 then (2 ^ 63 - 1, Some ErrRange)
                    else (int (digitsVal 0 ds), None))"
proof -
  obtain c cs where e: "ds = c # cs" using assms(1) by (cases ds) auto
  have "isDigit c" using assms(2) e by simp
  then have h: "c \<noteq> CHR ''-''" "c \<noteq> CHR ''+''" using isDigit_not_sign by auto
  show ?thesis using assms(2) h unfolding e Atoi_def by (simp add: Let_def)
qed

lemma Atoi_minus:
  assumes "ds \<noteq> []" and "list_all isDigit ds"
  shows "Atoi (CHR ''-'' # ds) = (if int (digitsVal 0 ds) > 2 ^ 63 then (- (2 ^ 63), Some ErrRange)
                    else (- int (digitsVal 0 ds), None))"
  using assms unfolding Atoi_def by (simp add: Let_def)

lemma Atoi_Itoa: "- (2 ^ 63) \<le> i \<Longrightarrow> i < 2 ^ 63 \<Longrightarrow> Atoi (Itoa i) = (i, None)"
proof (cases "i < 0")
  case True
  assume "- (2 ^ 63) \<le> i"
  then show ?thesis using True
    by (simp add: Itoa_def Atoi_minus natDigits_ne natDigits_all natDigits_val)
next
  case False
  assume "i < 2 ^ 63"
  then show ?thesis using False
    by (simp add: Itoa_def Atoi_digits natDigits_ne natDigits_all natDigits_val)
qed

lemma int64_id: "- (2 ^ 63) \<le> x \<Longrightarrow> x < 2 ^ 63 \<Longrightarrow> int64 x = x"
  by (simp add: int64_def)

lemma showLoop_eq:
  "showLoop l s ns parsed = parsed @ map (\<lambda>n. parseNote l s n True) (filter (\<lambda>n. Content n \<noteq> []) ns)"
  by (induction ns arbitrary: parsed) auto

section \<open>Properties of showNotes\<close>

lemma Itoa_nonneg_ne: "0 \<le> i \<Longrightarrow> Itoa i \<noteq> ''-1''"
  using natDigits_all [of "nat i"] natDigits_ne [of "nat i"]
  by (cases "natDigits (nat i)") (auto simp: Itoa_def isDigit_def)

lemma showNotes_limit:
  assumes "0 \<le> limit" and "limit < 2 ^ 63"
    and "Flags (Params s) ''n'' = Some (Itoa limit)"
    and "kept = filter (\<lambda>n. Content n \<noteq> []) (sortSort l notes)"
    and "int (length kept) < 2 ^ 63"
  shows "showNotes l s notes =
     Return (if kept = [] then NoNotes (Email (Cfg s))
             else Listing (map (\<lambda>n. parseNote l s n True)
                    (drop (length kept - min (nat limit) (length kept)) kept)) (Email (Cfg s)))"
proof -
  have f: "flag s ''n'' = Itoa limit" using assms(3) by (simp add: flag_def lookup_def)
  have a: "Atoi (Itoa limit) = (limit, None)" using assms(1,2) by (simp add: Atoi_Itoa)
  have ne: "Itoa limit \<noteq> ''-1''" using assms(1) by (rule Itoa_nonneg_ne)
  have p: "showLoop l s (sortSort l notes) [] = map (\<lambda>n. parseNote l s n True) kept"
    by (simp add: showLoop_eq assms(4))
  show ?thesis
  proof (cases "limit > int (length kept)")
    case True
    then show ?thesis using assms(5)
      by (simp add: showNotes_def p f a ne Let_def int64_id drop_map min_def)
  next
    case False
    then have "int64 (int (length kept) - limit) = int (length kept) - limit"
      using assms(1,5) by (intro int64_id) auto
    then show ?thesis using False assms(1)
      by (auto simp add: showNotes_def p f a ne Let_def drop_map min_def nat_diff_distrib' nat_le_iff)
  qed
qed

lemma not_Less_iff: "\<not> Less b a \<longleftrightarrow> timestamp a \<le> timestamp b"
  by (auto simp: Less_def timestamp_def)

lemma sorted_wrt_Less_iff:
  "sorted_wrt (\<lambda>a b. \<not> Less b a) xs \<longleftrightarrow> sorted (map timestamp xs)"
  unfolding not_Less_iff by (rule sorted_map [symmetric])

lemma sortContract_sorted: "sortContract srt \<Longrightarrow> sorted (map timestamp (srt xs))"
  unfolding sortContract_def sorted_wrt_Less_iff by blast

lemma sortContract_mset: "sortContract srt \<Longrightarrow> mset (srt xs) = mset xs"
  unfolding sortContract_def by blast

lemma sortContract_length: "sortContract srt \<Longrightarrow> length (srt xs) = length xs"
  using sortContract_mset [of srt xs] mset_eq_length by blast

lemma sortContract_stableSort: "sortContract stableSort"
  unfolding sortContract_def sorted_wrt_Less_iff stableSort_def by simp


lemma int64_wrap: "2 ^ 63 \<le> x \<Longrightarrow> x < 2 ^ 64 \<Longrightarrow> int64 x = x - 2 ^ 64"
proof -
  assume a: "2 ^ 63 \<le> x" "x < 2 ^ 64"
  have "(x + 2 ^ 63) mod 2 ^ 64 = (x + 2 ^ 63 - 2 ^ 64) mod 2 ^ 64"
    by (simp only: minus_mod_self2)
  also have "\<dots> = x + 2 ^ 63 - 2 ^ 64" using a by (intro mod_pos_pos_trivial) auto
  finally show ?thesis by (simp add: int64_def)
qed

lemma Itoa_inj_m1: "- (2 ^ 63) \<le> i \<Longrightarrow> i < 2 ^ 63 \<Longrightarrow> Itoa i = ''-1'' \<Longrightarrow> i = - 1"
proof -
  assume a: "- (2 ^ 63) \<le> i" "i < 2 ^ 63" and e: "Itoa i = ''-1''"
  have "Atoi (Itoa i) = (i, None)" using a by (rule Atoi_Itoa)
  moreover have "Atoi ''-1'' = (- 1, None)" by (simp add: Atoi_def isDigit_def digitVal_def)
  ultimately show ?thesis using e by simp
qed

lemma showNotes_negative:
  assumes "limit < - 1" and "- (2 ^ 63) \<le> limit"
    and "Flags (Params s) ''n'' = Some (Itoa limit)"
    and "kept = filter (\<lambda>n. Content n \<noteq> []) (sortSort l notes)"
    and "kept \<noteq> []" and "int (length kept) < 2 ^ 63"
  shows "showNotes l s notes = Panic"
proof -
  have f: "flag s ''n'' = Itoa limit" using assms(3) by (simp add: flag_def lookup_def)
  have a: "Atoi (Itoa limit) = (limit, None)" using assms(1,2) by (simp add: Atoi_Itoa)
  have ne: "Itoa limit \<noteq> ''-1''" using assms(1,2) Itoa_inj_m1 [of limit] by auto
  have p: "showLoop l s (sortSort l notes) [] = map (\<lambda>n. parseNote l s n True) kept"
    by (simp add: showLoop_eq assms(4))
  define x where "x = int (length kept) - limit"
  have xr: "int (length kept) < x" "x < 2 ^ 64" using assms(1,2,6) by (auto simp: x_def)
  have c: "int64 x < 0 \<or> int64 x > int (length kept)"
  proof (cases "x < 2 ^ 63")
    case True
    then have "int64 x = x" using xr by (intro int64_id) auto
    then show ?thesis using xr by simp
  next
    case False
    then have "int64 x = x - 2 ^ 64" using xr by (intro int64_wrap) auto
    then show ?thesis using xr by simp
  qed
  show ?thesis using c assms(1,5)
    by (simp add: showNotes_def p f a ne Let_def x_def)
qed

text \<open>
  C6. For every input and every limit \<open>\<ge> 0\<close> (the \<open>n\<close> flag is the text of the limit),
  showNotes sorts ascending by modify timestamp, drops the notes of empty content, and
  prints the records of the last \<open>min limit count\<close> notes that remain, whatever
  \<open>sort.Sort\<close> does within its contract.
\<close>

theorem C6_sort_drop_limit:
  assumes "sortContract (sortSort l)" and "0 \<le> limit" and "limit < 2 ^ 63"
    and "Flags (Params s) ''n'' = Some (Itoa limit)"
    and "int (length notes) < 2 ^ 63"
  shows "sorted (map timestamp (sortSort l notes)) \<and>
     mset (sortSort l notes) = mset notes \<and>
     showNotes l s notes =
       Return (let kept = filter (\<lambda>n. Content n \<noteq> []) (sortSort l notes)
               in if kept = [] then NoNotes (Email (Cfg s))
                  else Listing (map (\<lambda>n. parseNote l s n True)
                         (drop (length kept - min (nat limit) (length kept)) kept)) (Email (Cfg s)))"
proof -
  have "length (filter (\<lambda>n. Content n \<noteq> []) (sortSort l notes)) \<le> length notes"
    using sortContract_length [OF assms(1), of "notes"] length_filter_le [of _ "sortSort l notes"]
    by simp
  then have "int (length (filter (\<lambda>n. Content n \<noteq> []) (sortSort l notes))) < 2 ^ 63"
    using assms(5) by linarith
  then have "showNotes l s notes =
       Return (let kept = filter (\<lambda>n. Content n \<noteq> []) (sortSort l notes)
               in if kept = [] then NoNotes (Email (Cfg s))
                  else Listing (map (\<lambda>n. parseNote l s n True)
                         (drop (length kept - min (nat limit) (length kept)) kept)) (Email (Cfg s)))"
    using showNotes_limit [OF assms(2,3,4) refl, of l "notes"] by (simp add: Let_def)
  then show ?thesis
    using sortContract_sorted [OF assms(1)] sortContract_mset [OF assms(1)] by simp
qed

theorem C6_sort_drop_limit_witness:
  "showNotes (exLib offline stableSort) (exClient [] [(''n'', ''2'')])
      [exNote ''x'' ''one'' [] 0 ''100'', exNote ''y'' ''two'' [] 0 ''300'',
       exNote ''z'' ''three'' [] 0 ''200'']
   = Return (Listing
       [parseNote (exLib offline stableSort) (exClient [] [(''n'', ''2'')])
          (exNote ''z'' ''three'' [] 0 ''200'') True,
        parseNote (exLib offline stableSort) (exClient [] [(''n'', ''2'')])
          (exNote ''y'' ''two'' [] 0 ''300'') True] ''me@example.org'')"
proof -
  have c: "sortContract (sortSort (exLib offline stableSort))"
    by (simp add: exLib_def sortContract_stableSort)
  show ?thesis
    using C6_sort_drop_limit [OF c, of 2 "exClient [] [(''n'', ''2'')]"
      "[exNote ''x'' ''one'' [] 0 ''100'', exNote ''y'' ''two'' [] 0 ''300'',
        exNote ''z'' ''three'' [] 0 ''200'']"]
    by (simp add: exLib_def exClient_def exNote_def stableSort_def timestamp_def
        GetSimpleNoteTimestamp_def Atoi_def isDigit_def digitVal_def Itoa_def
        natDigits.simps digitChar_def)
qed




text \<open>
  C8 fails on the code. For every limit below \<open>-1\<close>, when at least one note has
  content, the cut index \<open>len(parsed) - n\<close> lies beyond the end of \<open>parsed\<close> (or, wrapped
  around, below 0) and the slice expression \<open>parsed[cut:]\<close> panics: showNotes guards the
  text \<open>-1\<close> only.
\<close>

theorem C8_negative_limit_panics:
  assumes "limit < - 1" and "- (2 ^ 63) \<le> limit"
    and "Flags (Params s) ''n'' = Some (Itoa limit)"
    and "filter (\<lambda>n. Content n \<noteq> []) (sortSort l notes) \<noteq> []"
    and "int (length (sortSort l notes)) < 2 ^ 63"
  shows "showNotes l s notes = Panic"
proof -
  have "length (filter (\<lambda>n. Content n \<noteq> []) (sortSort l notes)) \<le> length (sortSort l notes)"
    by (rule length_filter_le)
  then have "int (length (filter (\<lambda>n. Content n \<noteq> []) (sortSort l notes))) < 2 ^ 63"
    using assms(5) by linarith
  then show ?thesis
    using showNotes_negative [OF assms(1,2,3) refl assms(4)] by simp
qed

theorem C8_negative_limit_panics_witness:
  "showNotes (exLib offline stableSort) (exClient [] [(''n'', ''-2'')])
      [exNote ''x'' ''one'' [] 0 ''100''] = Panic"
  using C8_negative_limit_panics [of "- 2" "exClient [] [(''n'', ''-2'')]"
      "exLib offline stableSort" "[exNote ''x'' ''one'' [] 0 ''100'']"]
  by (simp add: exLib_def exClient_def exNote_def stableSort_def Itoa_def
      natDigits.simps digitChar_def)

section \<open>Properties of the collection loop\<close>

lemma collectLoop_waiting:
  "length full + length xs < wanted \<Longrightarrow>
   collectLoop wanted full (map Retrieved xs @ rest) = collectLoop wanted (full @ xs) rest"
  by (induction xs arbitrary: full) (auto simp: Let_def)

lemma collectLoop_complete:
  assumes "length full + length xs = wanted" and "xs \<noteq> []"
  shows "collectLoop wanted full (map Retrieved xs @ rest) = Some (Return (Inr (full @ xs)))"
proof -
  obtain ys y where e: "xs = ys @ [y]" using assms(2) by (metis rev_exhaust)
  have "collectLoop wanted full (map Retrieved ys @ (Retrieved y # rest)) =
        collectLoop wanted (full @ ys) (Retrieved y # rest)"
    using assms(1) by (intro collectLoop_waiting) (simp add: e)
  then show ?thesis using assms(1) by (simp add: e Let_def)
qed

text \<open>
  C9. With \<open>wanted\<close> summaries (at least one, or the loop is not entered): when the
  first \<open>wanted\<close> events are notes received, the loop ends with success as soon as the
  count is reached and hands exactly these notes, in their order of arrival, to
  showNotes; when the timeout comes after fewer than \<open>wanted\<close> notes, the loop returns
  the timeout error and the notes collected so far are dropped.
\<close>

theorem C9_collect_or_timeout:
  "(length arrived = wanted \<and> 0 < wanted \<longrightarrow>
      collectLoop wanted [] (map Retrieved arrived @ rest) = Some (Return (Inr arrived))) \<and>
   (length arrived < wanted \<longrightarrow>
      collectLoop wanted [] (map Retrieved arrived @ TimeoutFired # rest)
        = Some (Return (Inl ErrTimeout)))"
proof (intro conjI impI)
  assume "length arrived = wanted \<and> 0 < wanted"
  then show "collectLoop wanted [] (map Retrieved arrived @ rest) = Some (Return (Inr arrived))"
    using collectLoop_complete [of "[]" arrived wanted rest] by auto
next
  assume "length arrived < wanted"
  then show "collectLoop wanted [] (map Retrieved arrived @ TimeoutFired # rest)
        = Some (Return (Inl ErrTimeout))"
    using collectLoop_waiting [of "[]" arrived wanted "TimeoutFired # rest"] by simp
qed

theorem C9_collect_or_timeout_witness:
  "collectLoop 2 [] [Retrieved exB, Retrieved exA, TimeoutFired] = Some (Return (Inr [exB, exA])) \<and>
   collectLoop 2 [] [Retrieved exB, TimeoutFired, Retrieved exA] = Some (Return (Inl ErrTimeout))"
  using C9_collect_or_timeout [of "[exB, exA]" 2 "[TimeoutFired]"]
    C9_collect_or_timeout [of "[exB]" 2 "[Retrieved exA]"]
  by simp

section \<open>Properties of makeRequest\<close>




section \<open>Properties of getAllNotes\<close>

lemma Itoa_100: "Itoa defaultNoteAmount = ''100''"
  by (simp add: Itoa_def defaultNoteAmount_def natDigits.simps digitChar_def)

lemma makeRequest_byMark_first:
  "makeRequest (Suc fuel) (exLib byMark srt) (baseUrl @ indexEndpoint) MethodGet None
      (Some [''length'' \<mapsto> ''100'']) s w
   = Some (Return (''page1'', None, 200), s,
       w @ [setHeaders (parseAddr s (exRequest MethodGet (baseUrl @ indexEndpoint))
              (Some [''length'' \<mapsto> ''100'']))])"
  by (simp add: NewRequest_def exLib_def exRequest_def byMark_def parseAddr_Query setHeaders_def)

lemma getAllNotes_byMark_diverges:
  "getAllNotes fuel (exLib byMark srt) acc [] s w = None"
proof (induction fuel arbitrary: acc w)
  case 0
  show ?case by simp
next
  case (Suc fuel)
  have j: "jsonNoteList (exLib byMark srt) ''page1'' = Inr \<lparr>Count = 1, Data = [exA], Mark = ''m1''\<rparr>"
    by (simp add: exLib_def)
  show ?case
    by (simp add: Itoa_100 makeRequest_byMark_first StatusOK_def j Suc.IH del: makeRequest.simps)
qed

lemma makeRequest_byTurn:
  "makeRequest (Suc fuel) (exLib byTurn srt) (baseUrl @ indexEndpoint) MethodGet None
      (Some [''length'' \<mapsto> ''100'']) s w
   = Some (Return (if w = [] then ''page1'' else ''page2'', None, 200), s,
       w @ [setHeaders (parseAddr s (exRequest MethodGet (baseUrl @ indexEndpoint))
              (Some [''length'' \<mapsto> ''100'']))])"
  by (simp add: NewRequest_def exLib_def exRequest_def byTurn_def)

lemma getAllNotes_byTurn:
  "getAllNotes (Suc (Suc fuel)) (exLib byTurn srt) [] [] (exClient [] []) []
   = Some (Return ([exA, exA, exB], None), exClient [] [],
       [setHeaders (parseAddr (exClient [] []) (exRequest MethodGet (baseUrl @ indexEndpoint))
              (Some [''length'' \<mapsto> ''100''])),
        setHeaders (parseAddr (exClient [] []) (exRequest MethodGet (baseUrl @ indexEndpoint))
              (Some [''length'' \<mapsto> ''100'']))])"
proof -
  have j: "jsonNoteList (exLib byTurn srt) ''page1'' = Inr \<lparr>Count = 1, Data = [exA], Mark = ''m1''\<rparr>"
     "jsonNoteList (exLib byTurn srt) ''page2'' = Inr \<lparr>Count = 1, Data = [exB], Mark = []\<rparr>"
    by (simp_all add: exLib_def)
  have p: "pageLoop (exClient [] []) [exA] [] = [exA]"
     "pageLoop (exClient [] []) [exB] [exA] = [exA, exB]"
    by (simp_all add: exClient_def exA_def exB_def exNote_def flag_def lookup_def)
  show ?thesis
    by (simp add: Itoa_100 makeRequest_byTurn StatusOK_def j p
        del: makeRequest.simps pageLoop.simps)
qed

text \<open>
  C1 fails on the code. Two pages, the note \<open>exA\<close> with mark \<open>m1\<close> and then the note
  \<open>exB\<close> with no mark; the claim says that getAllNotes returns \<open>[exA, exB]\<close>. Against
  the server that serves by mark, the recursive call passes the caller's empty mark
  again, gets the first page again, and no bound on the depth is enough for a result.
  Against the server that serves the pages by turn, the result of the recursive call,
  which already starts with the notes accumulated, is appended to them: \<open>exA\<close> comes
  twice.
\<close>

theorem C1_pages_once_in_order_fails:
  "getAllNotes fuel (exLib byMark stableSort) [] [] (exClient [] []) [] = None \<and>
   map_option fst (getAllNotes (Suc (Suc fuel)) (exLib byTurn stableSort) [] [] (exClient [] []) [])
     = Some (Return ([exA, exA, exB], None))"
  by (simp add: getAllNotes_byMark_diverges getAllNotes_byTurn del: getAllNotes.simps)

text \<open>
  C2 fails on the code. Every index request carries \<open>length=100\<close>, but the request
  after the first page, whose mark is \<open>m1\<close>, carries no \<open>mark\<close>: the recursive call
  passes the parameter \<open>mark\<close>, not the mark of the page. Against the server that
  serves by mark, whose marks advance and whose pages are two, the recursion does not
  end.
\<close>

theorem C2_mark_not_sent:
  "map_option (\<lambda>(out, s, w). map (\<lambda>r. (Addr r, Query r ''length'', Query r ''mark'')) w)
      (getAllNotes (Suc (Suc fuel)) (exLib byTurn stableSort) [] [] (exClient [] []) [])
     = Some [(baseUrl @ indexEndpoint, Some [''100''], None),
             (baseUrl @ indexEndpoint, Some [''100''], None)] \<and>
   jsonNoteList (exLib byTurn stableSort) ''page1'' = Inr \<lparr>Count = 1, Data = [exA], Mark = ''m1''\<rparr> \<and>
   getAllNotes fuel (exLib byMark stableSort) [] [] (exClient [] []) [] = None"
proof -
  have q: "Query (setHeaders (parseAddr (exClient [] []) (exRequest MethodGet (baseUrl @ indexEndpoint))
              (Some [''length'' \<mapsto> ''100'']))) k
      = (if k = ''length'' then Some [''100''] else if k = ''email'' then Some [''me@example.org'']
         else if k = ''auth'' then Some [''tok0''] else None)" for k
    by (simp add: setHeaders_def parseAddr_Query exRequest_def valuesOf_def exClient_def)
  have a: "Addr (setHeaders (parseAddr (exClient [] []) (exRequest MethodGet (baseUrl @ indexEndpoint))
              (Some [''length'' \<mapsto> ''100'']))) = baseUrl @ indexEndpoint"
    by (simp add: setHeaders_def parseAddr_def exRequest_def)
  have j: "jsonNoteList (exLib byTurn stableSort) ''page1'' = Inr \<lparr>Count = 1, Data = [exA], Mark = ''m1''\<rparr>"
    by (simp add: exLib_def)
  show ?thesis
    by (simp add: getAllNotes_byMark_diverges getAllNotes_byTurn q a j del: getAllNotes.simps)
qed

section \<open>The requests of deleteNote\<close>







lemma methods_distinct:
  "MethodGet \<noteq> MethodDelete" "MethodPost \<noteq> MethodDelete"
  by (simp_all add: MethodGet_def MethodPost_def MethodDelete_def)



lemma flag_Params: "Params s' = Params s \<Longrightarrow> flag s' k = flag s k"
  by (simp add: flag_def)

lemma login_not_delete: "isLogin r \<Longrightarrow> Method r \<noteq> MethodDelete"
  by (simp add: isLogin_def methods_distinct)



end
